theory Spec2Isabelle
  imports Main "HOL-Library.Char_ord" "HOL-Library.List_Lexorder"
begin

section \<open>templet: a template manager for the terminal\<close>

text \<open>
  A shallow embedding of \<^verbatim>\<open>src/templet.py\<close>. The class \<^verbatim>\<open>TemplateManager\<close> is a
  record, its methods are functions that take the manager and the world around it (the
  two directories, the clock, the terminal) and return them updated. An exception is a
  value of the type \<open>error\<close>.

  Text. A Python \<^verbatim>\<open>str\<close> is modelled as a \<open>string\<close>; a character outside ASCII
  is the bytes of its UTF-8 encoding, which keeps the order of code points and never
  contains the byte of an ASCII character. The library functions \<^verbatim>\<open>str.lower\<close>,
  \<^verbatim>\<open>str.isdigit\<close> and \<^verbatim>\<open>int\<close> are modelled on ASCII text: letters A to Z are
  lower-cased, the digits are 0 to 9, and \<^verbatim>\<open>int\<close> reads decimal numerals of any length
  (the interpreter's bound on the length of a numeral is left out).

  Files. The content of a file is the text that reading it returns and that writing it
  is given; how text mode encodes it and its line ends on disk is left out.

  The terminal. What is drawn is given by the data it is drawn from, the prompts of the
  reads are left out, and a read is an event that the world supplies.
\<close>

subsection \<open>Library functions on text\<close>

definition lower_chr :: "char \<Rightarrow> char" where
  "lower_chr c =
     (case map_of (zip ''ABCDEFGHIJKLMNOPQRSTUVWXYZ'' ''abcdefghijklmnopqrstuvwxyz'') c of
        None \<Rightarrow> c
      | Some l \<Rightarrow> l)"

definition lower :: "string \<Rightarrow> string" where
  \<comment> \<open>\<^verbatim>\<open>s.lower()\<close>\<close>
  "lower s = map lower_chr s"

definition digit_chr :: "nat \<Rightarrow> char" where
  "digit_chr d = ''0123456789'' ! d"

definition digit_val :: "char \<Rightarrow> nat" where
  "digit_val c = (case map_of (zip ''0123456789'' [0 ..< 10]) c of None \<Rightarrow> 0 | Some d \<Rightarrow> d)"

fun str :: "nat \<Rightarrow> string" where
  \<comment> \<open>\<^verbatim>\<open>str(n)\<close>, also the \<^verbatim>\<open>{n}\<close> of an f-string, for an int that is not negative\<close>
  "str n = (if n < 10 then [digit_chr n] else str (n div 10) @ [digit_chr (n mod 10)])"

declare str.simps [simp del]

definition isdigit :: "string \<Rightarrow> bool" where
  \<comment> \<open>\<^verbatim>\<open>s.isdigit()\<close>: not empty, and every character a digit\<close>
  "isdigit s = (s \<noteq> [] \<and> (\<forall>c \<in> set s. c \<in> set ''0123456789''))"

definition py_int :: "string \<Rightarrow> int" where
  \<comment> \<open>\<^verbatim>\<open>int(s)\<close> on a string of digits\<close>
  "py_int s = int (foldl (\<lambda>a c. 10 * a + digit_val c) 0 s)"

definition rsplit_dot :: "string \<Rightarrow> string \<times> string" where
  \<comment> \<open>\<^verbatim>\<open>s.rsplit('.', 1)\<close> for an \<open>s\<close> with a dot: the text before the last dot, and after it\<close>
  "rsplit_dot s =
     (rev (tl (dropWhile (\<lambda>c. c \<noteq> CHR ''.'') (rev s))),
      rev (takeWhile (\<lambda>c. c \<noteq> CHR ''.'') (rev s)))"

definition rfind_dot :: "string \<Rightarrow> int" where
  \<comment> \<open>\<^verbatim>\<open>s.rfind('.')\<close>: the index of the last dot, or -1\<close>
  "rfind_dot s =
     (if CHR ''.'' \<in> set s
      then int (length s) - 1 - int (length (takeWhile (\<lambda>c. c \<noteq> CHR ''.'') (rev s)))
      else - 1)"

definition suffix :: "string \<Rightarrow> string" where
  \<comment> \<open>\<^verbatim>\<open>Path.suffix\<close> of a file name, as pathlib computes it up to Python 3.13\<close>
  "suffix name =
     (let i = rfind_dot name
      in if 0 < i \<and> i < int (length name) - 1 then drop (nat i) name else [])"

subsection \<open>The clock\<close>

record datetime =
  year :: nat
  month :: nat
  day :: nat
  hour :: nat
  minute :: nat
  second :: nat

definition zero_pad :: "nat \<Rightarrow> nat \<Rightarrow> string" where
  \<comment> \<open>a number in at least \<open>w\<close> digits, as the fields of \<^verbatim>\<open>strftime\<close> are: four for
      the year (of a clock, 1970 or later), two for the others\<close>
  "zero_pad w n = replicate (w - length (str n)) CHR ''0'' @ str n"

definition strftime_date :: "datetime \<Rightarrow> string" where
  \<comment> \<open>\<^verbatim>\<open>strftime('%Y-%m-%d')\<close>\<close>
  "strftime_date t =
     zero_pad 4 (year t) @ ''-'' @ zero_pad 2 (month t) @ ''-'' @ zero_pad 2 (day t)"

definition bullet :: string where
  \<comment> \<open>U+2022\<close>
  "bullet = [CHR 0xE2, CHR 0x80, CHR 0xA2]"

definition strftime_stamp :: "datetime \<Rightarrow> string" where
  \<comment> \<open>\<^verbatim>\<open>strftime('%Y-%m-%d X %H:%M:%S')\<close>, X the bullet\<close>
  "strftime_stamp t =
     strftime_date t @ '' '' @ bullet @ '' '' @
     zero_pad 2 (hour t) @ '':'' @ zero_pad 2 (minute t) @ '':'' @ zero_pad 2 (second t)"

subsection \<open>Directories\<close>

text \<open>
  A directory is a list of named nodes. A regular file carries the text that
  \<^verbatim>\<open>open(..., 'r', encoding='utf-8').read()\<close> returns, or \<open>None\<close> when opening or
  decoding it raises; every other node (a subdirectory, a socket) is \<open>Other\<close>.
\<close>

datatype node = Regular "string option" | Other

type_synonym directory = "(string \<times> node) list"

fun is_file :: "node \<Rightarrow> bool" where
  "is_file (Regular _) = True"
| "is_file Other = False"

definition exists :: "directory \<Rightarrow> string \<Rightarrow> bool" where
  \<comment> \<open>\<^verbatim>\<open>Path(name).exists()\<close>\<close>
  "exists d name = (name \<in> set (map fst d))"

datatype error = ReadError | WriteError | IndexError | KeyboardInterrupt

definition read_text :: "directory \<Rightarrow> string \<Rightarrow> error + string" where
  \<comment> \<open>\<^verbatim>\<open>with open(path, 'r', encoding='utf-8') as f: content = f.read()\<close>\<close>
  "read_text d name =
     (case map_of d name of
        Some (Regular (Some content)) \<Rightarrow> Inr content
      | _ \<Rightarrow> Inl ReadError)"

definition write_text :: "directory \<Rightarrow> string \<Rightarrow> string \<Rightarrow> directory" where
  \<comment> \<open>\<^verbatim>\<open>with open(name, 'w', encoding='utf-8') as f: f.write(text)\<close>, when it succeeds\<close>
  "write_text d name text = (name, Regular (Some text)) # filter (\<lambda>e. fst e \<noteq> name) d"

subsection \<open>Collision resolution\<close>

definition rename :: "string \<Rightarrow> nat \<Rightarrow> string" where
  \<comment> \<open>lines 227 to 231: the candidate for a counter, computed from the original name\<close>
  "rename original_filename counter =
     (if CHR ''.'' \<in> set original_filename
      then (let (name_part, ext_part) = rsplit_dot original_filename
            in name_part @ ''-'' @ str counter @ ''.'' @ ext_part)
      else original_filename @ ''-'' @ str counter)"

function conflict_loop :: "directory \<Rightarrow> string \<Rightarrow> string \<Rightarrow> nat \<Rightarrow> string" where
  \<comment> \<open>lines 226 to 232: \<^verbatim>\<open>while Path(new_filename).exists(): ...; counter += 1\<close>\<close>
  "conflict_loop d original_filename new_filename counter =
     (if exists d new_filename
      then conflict_loop d original_filename (rename original_filename counter) (counter + 1)
      else new_filename)"
  by pat_completeness auto

subsection \<open>The catalog\<close>

definition TEXT_EXTENSIONS :: "string list" where
  "TEXT_EXTENSIONS =
     [''.txt'', ''.md'', ''.py'', ''.js'', ''.html'', ''.css'', ''.yml'', ''.yaml'',
      ''.json'', ''.xml'', ''.sh'', ''.bash'', ''.zsh'', ''.fish'', ''.toml'', ''.ini'',
      ''.cfg'', ''.conf'', ''.env'', ''.gitignore'', ''.dockerignore'', ''.rst'',
      ''.tex'', ''.csv'', ''.sql'', ''.vim'', ''.lua'', ''.rb'', ''.go'', ''.rs'',
      ''.java'', ''.c'', ''.cpp'', ''.h'', ''.hpp'', ''.php'', ''.swift'', ''.kt'',
      ''.r'', ''.R'', ''.jl'', ''.ts'', ''.tsx'', ''.jsx'', ''.vue'', ''.svelte'',
      ''.scss'', ''.sass'', ''.less'', ''.asm'', ''.s'', ''.pl'', ''.pm'', ''.tcl'',
      ''.dart'', ''.gradle'', ''.sbt'', ''.clj'', ''.cljs'', ''.edn'', ''.ex'', ''.exs'',
      ''.elm'', ''.fs'', ''.fsx'', ''.fsi'', ''.ml'', ''.mli'', ''.nim'', ''.nims'',
      ''.hx'', ''.hxml'', ''.pas'', ''.pp'', ''.inc'', ''.zig'', ''.v'', ''.vsh'']"

definition NO_EXT_FILES :: "string list" where
  "NO_EXT_FILES =
     [''Dockerfile'', ''.gitignore'', ''Makefile'', ''Rakefile'', ''Gemfile'', ''Pipfile'',
      ''Procfile'', ''Vagrantfile'', ''Brewfile'', ''Guardfile'', ''Capfile'',
      ''Thorfile'', ''Berksfile'', ''Appraisals'', ''Fastfile'', ''Appfile'',
      ''Deliverfile'', ''Matchfile'', ''Scanfile'', ''Gymfile'', ''LICENSE'',
      ''README'', ''CHANGELOG'', ''AUTHORS'', ''CONTRIBUTORS'', ''COPYING'',
      ''INSTALL'', ''NEWS'', ''THANKS'', ''HISTORY'', ''NOTICE'', ''MANIFEST'']"

definition is_supported_file :: "string \<Rightarrow> bool" where
  \<comment> \<open>lines 68 to 75, on the name of the path\<close>
  "is_supported_file name =
     (if name \<in> set NO_EXT_FILES then True
      else lower (suffix name) \<in> set TEXT_EXTENSIONS)"

definition load_templates :: "directory \<Rightarrow> string list" where
  \<comment> \<open>lines 79 to 82; \<^verbatim>\<open>iterdir()\<close> yields the entries of the directory in any order\<close>
  "load_templates d =
     sort (map fst (filter (\<lambda>(name, f). is_file f \<and> is_supported_file name) d))"

subsection \<open>The manager and the world\<close>

record manager =
  templates :: "string list"
  selected_index :: int
  use_termios :: bool

text \<open>
  What a read from the terminal gives the program: the key that \<^verbatim>\<open>get_key_termios\<close>
  returns, the command that \<^verbatim>\<open>get_command_fallback\<close> returns (the line typed, stripped
  and lower-cased), the line that \<^verbatim>\<open>input\<close> returns; or an interrupt while it waits.
\<close>

datatype event = Input string | Interrupt

text \<open>
  What the program prints: the frame of \<^verbatim>\<open>draw_ui\<close> (given by the data it is drawn
  from), the cleared screen with the confirmation \<^verbatim>\<open>Created: {filename}\<close>, the help
  screen, the hint after an unknown command, the reset of the colours.
\<close>

datatype out =
    Frame "string list" int bool
  | Created string
  | Help
  | Hint string
  | Reset

text \<open>
  The world: the template directory, the working directory, whether
  \<^verbatim>\<open>open(name, 'w')\<close> and the write succeed, what \<^verbatim>\<open>datetime.now()\<close> returns at
  line 218 and at line 240, the events still to come from the terminal, and what has
  been printed. The terminal's events are a finite prefix of what the user does: when
  they are used up the program is blocked in its read.
\<close>

record world =
  template_dir :: directory
  cwd :: directory
  writable :: "string \<Rightarrow> bool"
  now_prefix :: datetime
  now_header :: datetime
  stdin :: "event list"
  stdout :: "out list"

definition init :: "world \<Rightarrow> bool \<Rightarrow> manager" where
  \<comment> \<open>lines 56 to 62; the template directory exists after \<^verbatim>\<open>setup_directory\<close>\<close>
  "init w termios_available =
     \<lparr>templates = load_templates (template_dir w),
      selected_index = 0,
      use_termios = termios_available\<rparr>"

subsection \<open>Creating a file from a template\<close>

definition split_name :: "string \<Rightarrow> string \<times> string" where
  \<comment> \<open>lines 209 to 214: \<open>(base_name, extension)\<close>\<close>
  "split_name template_name =
     (if CHR ''.'' \<in> set template_name
      then (let (base_name, extension) = rsplit_dot template_name
            in (base_name, ''.'' @ extension))
      else (template_name, []))"

definition generate_filename :: "world \<Rightarrow> string \<Rightarrow> bool \<Rightarrow> string" where
  \<comment> \<open>lines 217 to 221\<close>
  "generate_filename w template_name add_date_prefix =
     (let (base_name, extension) = split_name template_name
      in if add_date_prefix
         then strftime_date (now_prefix w) @ ''-'' @ base_name @ extension
         else base_name @ extension)"

definition handle_conflicts :: "directory \<Rightarrow> string \<Rightarrow> string" where
  \<comment> \<open>lines 224 to 232: the loop entered with \<open>counter = 1\<close> and the generated name\<close>
  "handle_conflicts d new_filename = conflict_loop d new_filename new_filename 1"

definition header_safe_extensions :: "string list" where
  "header_safe_extensions = [''.txt'', ''.md'', ''.markdown'', ''.mdown'', ''.mkd'']"

definition star :: string where
  \<comment> \<open>U+2726\<close>
  "star = [CHR 0xE2, CHR 0x9C, CHR 0xA6]"

definition calendar :: string where
  \<comment> \<open>U+1F4C5\<close>
  "calendar = [CHR 0xF0, CHR 0x9F, CHR 0x93, CHR 0x85]"

definition header :: "string \<Rightarrow> datetime \<Rightarrow> string" where
  \<comment> \<open>lines 239 to 243\<close>
  "header template_name t =
     ''# '' @ star @ '' Template: '' @ template_name @ ''\<newline>'' @
     ''### '' @ calendar @ '' '' @ strftime_stamp t @ ''\<newline>'' @
     ''---'' @ ''\<newline>'' @
     ''\<newline>''"

definition final_content :: "world \<Rightarrow> string \<Rightarrow> bool \<Rightarrow> string \<Rightarrow> string" where
  \<comment> \<open>lines 237 to 247\<close>
  "final_content w template_name add_date_prefix content =
     (let (base_name, extension) = split_name template_name
      in if lower extension \<in> set header_safe_extensions \<and> add_date_prefix
         then header template_name (now_header w) @ content
         else content)"

definition create_file_from_template :: "world \<Rightarrow> string \<Rightarrow> bool \<Rightarrow> error + string \<times> world" where
  \<comment> \<open>lines 201 to 253: the name of the file written and the world with it, or the
      exception of the read or of the write (a write that fails is taken to leave the
      working directory as it was)\<close>
  "create_file_from_template w template_name add_date_prefix =
     (case read_text (template_dir w) template_name of
        Inl e \<Rightarrow> Inl e
      | Inr content \<Rightarrow>
          (let new_filename =
                 handle_conflicts (cwd w) (generate_filename w template_name add_date_prefix);
               text = final_content w template_name add_date_prefix content
           in if writable w new_filename
              then Inr (new_filename, w\<lparr>cwd := write_text (cwd w) new_filename text\<rparr>)
              else Inl WriteError))"

subsection \<open>Commands\<close>

text \<open>
  The result of a method: it returns a value, it raises, or it is blocked in a read
  with no event left; each with the manager and the world as they are then.
\<close>

datatype 'a outcome =
    Returns 'a manager world
  | Raises error manager world
  | Blocks manager world

definition getitem :: "'a list \<Rightarrow> int \<Rightarrow> error + 'a" where
  \<comment> \<open>\<^verbatim>\<open>xs[i]\<close>: an index below zero counts from the end, one out of range raises\<close>
  "getitem xs i =
     (if 0 \<le> i \<and> i < int (length xs) then Inr (xs ! nat i)
      else if i < 0 \<and> - int (length xs) \<le> i then Inr (xs ! nat (int (length xs) + i))
      else Inl IndexError)"

definition print :: "out \<Rightarrow> world \<Rightarrow> world" where
  "print x w = w\<lparr>stdout := stdout w @ [x]\<rparr>"

definition create_and_report :: "bool \<Rightarrow> manager \<Rightarrow> world \<Rightarrow> bool outcome" where
  \<comment> \<open>lines 273 to 277 and 280 to 284, and with \<^verbatim>\<open>break\<close> for \<^verbatim>\<open>return False\<close>
      lines 321 to 325 and 327 to 331\<close>
  "create_and_report add_date_prefix m w =
     (case getitem (templates m) (selected_index m) of
        Inl e \<Rightarrow> Raises e m w
      | Inr template \<Rightarrow>
          (case create_file_from_template w template add_date_prefix of
             Inl e \<Rightarrow> Raises e m w
           | Inr (filename, w') \<Rightarrow> Returns False m (print (Created filename) w')))"

definition press_enter :: "manager \<Rightarrow> world \<Rightarrow> bool outcome" where
  \<comment> \<open>lines 294 and 300, then line 302: \<^verbatim>\<open>input("Press Enter to continue...")\<close>\<close>
  "press_enter m w =
     (case stdin w of
        [] \<Rightarrow> Blocks m w
      | Interrupt # rest \<Rightarrow> Raises KeyboardInterrupt m (w\<lparr>stdin := rest\<rparr>)
      | Input line # rest \<Rightarrow> Returns True m (w\<lparr>stdin := rest\<rparr>))"

definition unknown_hint :: "manager \<Rightarrow> string" where
  \<comment> \<open>lines 296 to 299\<close>
  "unknown_hint m =
     (if templates m \<noteq> []
      then ''Unknown command. Try: up/down, 1-'' @ str (min 9 (length (templates m))) @
           '', enter, copy, quit, help''
      else ''Unknown command. Try: quit'')"

definition handle_fallback_command :: "string \<Rightarrow> manager \<Rightarrow> world \<Rightarrow> bool outcome" where
  \<comment> \<open>lines 255 to 302: returns True to continue, False to exit\<close>
  "handle_fallback_command command0 m w =
     (let command = (if command0 = [] then ''enter'' else command0)
      in if command \<in> set [''q'', ''quit'', ''exit''] then Returns False m w
         else if command \<in> set [''up'', ''u''] \<and> templates m \<noteq> []
         then Returns True (m\<lparr>selected_index := max 0 (selected_index m - 1)\<rparr>) w
         else if command \<in> set [''down'', ''d''] \<and> templates m \<noteq> []
         then Returns True
                (m\<lparr>selected_index :=
                     min (int (length (templates m)) - 1) (selected_index m + 1)\<rparr>) w
         else if isdigit command \<and> templates m \<noteq> []
         then (let target_index = py_int command - 1
               in if 0 \<le> target_index \<and> target_index < int (length (templates m))
                  then Returns True (m\<lparr>selected_index := target_index\<rparr>) w
                  else Returns True m w)
         else if command \<in> set [''enter'', ''e'', []] \<and> templates m \<noteq> []
         then create_and_report True m w
         else if command \<in> set [''copy'', ''c''] \<and> templates m \<noteq> []
         then create_and_report False m w
         else if command \<in> set [''help'', ''h'', ''?'']
         then press_enter m (print Help w)
         else press_enter m (print (Hint (unknown_hint m)) w))"

subsection \<open>The main loop\<close>

definition up_arrow :: string where
  \<comment> \<open>\<^verbatim>\<open>'\x1b[A'\<close>\<close>
  "up_arrow = [CHR 0x1B, CHR ''['', CHR ''A'']"

definition down_arrow :: string where
  \<comment> \<open>\<^verbatim>\<open>'\x1b[B'\<close>\<close>
  "down_arrow = [CHR 0x1B, CHR ''['', CHR ''B'']"

definition carriage_return :: string where
  \<comment> \<open>\<^verbatim>\<open>'\r'\<close>\<close>
  "carriage_return = [CHR 0x0D]"

definition handle_key :: "string \<Rightarrow> manager \<Rightarrow> world \<Rightarrow> bool outcome" where
  \<comment> \<open>lines 314 to 331; False for \<^verbatim>\<open>break\<close>, True for the next round of the loop\<close>
  "handle_key key m w =
     (if key = ''q'' then Returns False m w
      else if key = up_arrow \<and> templates m \<noteq> []
      then Returns True (m\<lparr>selected_index := max 0 (selected_index m - 1)\<rparr>) w
      else if key = down_arrow \<and> templates m \<noteq> []
      then Returns True
             (m\<lparr>selected_index :=
                  min (int (length (templates m)) - 1) (selected_index m + 1)\<rparr>) w
      else if key = carriage_return \<and> templates m \<noteq> []
      then create_and_report True m w
      else if key = ''c'' \<and> templates m \<noteq> []
      then create_and_report False m w
      else Returns True m w)"

definition iteration :: "manager \<Rightarrow> world \<Rightarrow> bool outcome" where
  \<comment> \<open>lines 308 to 336, one round of \<^verbatim>\<open>while True\<close>: draw, read, act\<close>
  "iteration m w =
     (let w1 = print (Frame (templates m) (selected_index m) (use_termios m)) w
      in case stdin w1 of
           [] \<Rightarrow> Blocks m w1
         | Interrupt # rest \<Rightarrow> Raises KeyboardInterrupt m (w1\<lparr>stdin := rest\<rparr>)
         | Input s # rest \<Rightarrow>
             if use_termios m then handle_key s m (w1\<lparr>stdin := rest\<rparr>)
             else handle_fallback_command s m (w1\<lparr>stdin := rest\<rparr>))"

function loop :: "manager \<Rightarrow> world \<Rightarrow> unit outcome" where
  \<comment> \<open>lines 307 to 336\<close>
  "loop m w =
     (case iteration m w of
        Returns continue m' w' \<Rightarrow> if continue then loop m' w' else Returns () m' w'
      | Raises e m' w' \<Rightarrow> Raises e m' w'
      | Blocks m' w' \<Rightarrow> Blocks m' w')"
  by pat_completeness auto

definition run :: "manager \<Rightarrow> world \<Rightarrow> unit outcome" where
  \<comment> \<open>lines 304 to 342: the loop in \<^verbatim>\<open>try\<close>, \<^verbatim>\<open>except KeyboardInterrupt: pass\<close>,
      \<^verbatim>\<open>finally: print(Color.RESET, end='')\<close>\<close>
  "run m w =
     (case loop m w of
        Returns u m' w' \<Rightarrow> Returns () m' (print Reset w')
      | Raises e m' w' \<Rightarrow>
          if e = KeyboardInterrupt then Returns () m' (print Reset w')
          else Raises e m' (print Reset w')
      | Blocks m' w' \<Rightarrow> Blocks m' w')"

definition main :: "world \<Rightarrow> bool \<Rightarrow> unit outcome" where
  \<comment> \<open>lines 344 to 347\<close>
  "main w termios_available = run (init w termios_available) w"

subsection \<open>The specification's candidate names\<close>

text \<open>
  The specification's sequence of candidates, in its own words: the original candidate,
  then \<^verbatim>\<open>{nameWithoutExt}-{counter}{ext}\<close> for the counters 1, 2, ..., the name split
  at its last dot and the extension empty when it has none.
\<close>

definition spec_candidate :: "string \<Rightarrow> nat \<Rightarrow> string" where
  "spec_candidate original k =
     (if k = 0 then original
      else (let (nameWithoutExt, ext) = split_name original
            in nameWithoutExt @ ''-'' @ str k @ ext))"

subsection \<open>Notions for the statements\<close>

fun manager_of :: "'a outcome \<Rightarrow> manager" where
  "manager_of (Returns x m w) = m"
| "manager_of (Raises e m w) = m"
| "manager_of (Blocks m w) = m"

fun world_of :: "'a outcome \<Rightarrow> world" where
  "world_of (Returns x m w) = w"
| "world_of (Raises e m w) = w"
| "world_of (Blocks m w) = w"

definition index_in_range :: "manager \<Rightarrow> bool" where
  \<comment> \<open>the invariant of the selection: \<open>0 <= index < len(catalog)\<close> when the catalog is not empty\<close>
  "index_in_range m =
     (templates m \<noteq> [] \<longrightarrow>
        0 \<le> selected_index m \<and> selected_index m < int (length (templates m)))"

definition kept :: "manager \<Rightarrow> 'a outcome \<Rightarrow> bool" where
  \<comment> \<open>after the outcome the index is in range and the catalog is the one of \<open>m\<close>\<close>
  "kept m r = (index_in_range (manager_of r) \<and> templates (manager_of r) = templates m)"

definition move_down_input :: "bool \<Rightarrow> string \<Rightarrow> bool" where
  \<comment> \<open>the key (raw mode) or the commands (fallback mode) that move the selection down\<close>
  "move_down_input termios s = (if termios then s = down_arrow else s \<in> set [''down'', ''d''])"

definition move_up_input :: "bool \<Rightarrow> string \<Rightarrow> bool" where
  \<comment> \<open>the key or the commands that move the selection up\<close>
  "move_up_input termios s = (if termios then s = up_arrow else s \<in> set [''up'', ''u''])"

definition untouched :: "manager \<Rightarrow> world \<Rightarrow> 'a outcome \<Rightarrow> bool" where
  \<comment> \<open>after the outcome the manager is \<open>m\<close> and the working directory is the one of \<open>w\<close>\<close>
  "untouched m w r = (manager_of r = m \<and> cwd (world_of r) = cwd w)"

definition instantiate_input :: "bool \<Rightarrow> string \<Rightarrow> bool option" where
  \<comment> \<open>the key or the commands that create a file, with the date prefix they ask for\<close>
  "instantiate_input termios s =
     (if termios
      then (if s = carriage_return then Some True else if s = ''c'' then Some False else None)
      else (if s \<in> set [[], ''enter'', ''e''] then Some True
            else if s \<in> set [''copy'', ''c''] then Some False
            else None))"

subsection \<open>Example worlds\<close>

definition morning :: datetime where
  "morning = \<lparr>year = 2024, month = 3, day = 1, hour = 9, minute = 5, second = 7\<rparr>"

definition report_world :: world where
  \<comment> \<open>\<^verbatim>\<open>report.txt\<close> and \<^verbatim>\<open>report-1.txt\<close> are in the working directory already\<close>
  "report_world =
     \<lparr>template_dir = [(''report.txt'', Regular (Some ''Quarterly''))],
      cwd = [(''report.txt'', Regular (Some ''old'')),
             (''report-1.txt'', Regular (Some ''older''))],
      writable = (\<lambda>name. True),
      now_prefix = morning,
      now_header = morning,
      stdin = [],
      stdout = []\<rparr>"

definition office_world :: world where
  \<comment> \<open>three templates, an empty working directory\<close>
  "office_world =
     \<lparr>template_dir = [(''notes.md'', Regular (Some ''Agenda'')),
                      (''script.sh'', Regular (Some ''echo hi'')),
                      (''config.json'', Regular (Some ''{}''))],
      cwd = [],
      writable = (\<lambda>name. True),
      now_prefix = morning,
      now_header = morning,
      stdin = [],
      stdout = []\<rparr>"


definition typing_world :: world where
  \<comment> \<open>the office, with six commands typed in fallback mode\<close>
  "typing_world =
     office_world\<lparr>stdin := [Input ''down'', Input ''down'', Input ''down'', Input ''up'',
                           Input ''9'', Input ''q'']\<rparr>"

definition office_manager :: manager where
  \<comment> \<open>the manager of the office in fallback mode, the second template selected\<close>
  "office_manager =
     \<lparr>templates = [''config.json'', ''notes.md'', ''script.sh''],
      selected_index = 1,
      use_termios = False\<rparr>"

definition empty_manager :: manager where
  \<comment> \<open>a manager in fallback mode that found no template\<close>
  "empty_manager = \<lparr>templates = [], selected_index = 0, use_termios = False\<rparr>"

definition unreadable_world :: world where
  \<comment> \<open>one template that cannot be read; Enter is pressed\<close>
  "unreadable_world =
     office_world\<lparr>template_dir := [(''notes.md'', Regular None)],
                   stdin := [Input carriage_return]\<rparr>"

definition read_only_world :: world where
  \<comment> \<open>the office with a working directory that cannot be written; \<^verbatim>\<open>copy\<close> is typed\<close>
  "read_only_world = office_world\<lparr>writable := (\<lambda>name. False), stdin := [Input ''copy'']\<rparr>"

section \<open>Termination of the loops\<close>

lemma digit_val_digit_chr: "d < 10 \<Longrightarrow> digit_val (digit_chr d) = d"
proof -
  assume "d < 10"
  then have "d \<in> {0, 1, 2, 3, 4, 5, 6, 7, 8, 9}"
    by auto
  then show ?thesis
    by (auto simp: digit_val_def digit_chr_def upt_conv_Cons)
qed

lemma foldl_str: "foldl (\<lambda>a c. 10 * a + digit_val c) 0 (str n) = n"
proof (induction n rule: str.induct)
  case (1 n)
  show ?case
  proof (cases "n < 10")
    case True
    then show ?thesis
      by (subst str.simps) (simp add: digit_val_digit_chr)
  next
    case False
    have mod: "n mod 10 < 10"
      by simp
    have "foldl (\<lambda>a c. 10 * a + digit_val c) 0 (str n)
        = 10 * foldl (\<lambda>a c. 10 * a + digit_val c) 0 (str (n div 10))
          + digit_val (digit_chr (n mod 10))"
      using False by (subst str.simps) simp
    also have "\<dots> = 10 * (n div 10) + n mod 10"
      using 1 [OF False] by (simp only: digit_val_digit_chr [OF mod])
    finally show ?thesis
      by simp
  qed
qed


lemma str_inj: "str m = str n \<Longrightarrow> m = n"
  by (metis foldl_str)

lemma length_str_pos: "0 < length (str n)"
  by (subst str.simps) simp

lemma rename_inj: "rename original j = rename original k \<Longrightarrow> j = k"
  by (auto simp: rename_def split: prod.splits if_splits dest: str_inj)

lemma rename_neq_original: "rename original k \<noteq> original"
proof
  assume "rename original k = original"
  then have "length (rename original k) = length original"
    by simp
  moreover have "length original < length (rename original k)"
  proof (cases "CHR ''.'' \<in> set original")
    case True
    then have "dropWhile (\<lambda>c. c \<noteq> CHR ''.'') (rev original) \<noteq> []"
      by (simp add: dropWhile_eq_Nil_conv)
    then have "length (tl (dropWhile (\<lambda>c. c \<noteq> CHR ''.'') (rev original))) + 1
        = length (dropWhile (\<lambda>c. c \<noteq> CHR ''.'') (rev original))"
      by (cases "dropWhile (\<lambda>c. c \<noteq> CHR ''.'') (rev original)") simp_all
    moreover have "length (takeWhile (\<lambda>c. c \<noteq> CHR ''.'') (rev original))
        + length (dropWhile (\<lambda>c. c \<noteq> CHR ''.'') (rev original)) = length original"
      using takeWhile_dropWhile_id [of "\<lambda>c. c \<noteq> CHR ''.''" "rev original"]
      by (metis length_append length_rev)
    ultimately show ?thesis
      using True length_str_pos [of k] by (simp add: rename_def rsplit_dot_def)
  next
    case False
    then show ?thesis
      using length_str_pos [of k] by (simp add: rename_def)
  qed
  ultimately show False
    by simp
qed

lemma finite_taken: "finite {k. exists d (rename original k)}"
proof -
  have "inj (rename original)"
    by (rule injI) (rule rename_inj)
  then have "finite (rename original -` set (map fst d))"
    by (intro finite_vimageI) simp_all
  then show ?thesis
    by (simp add: exists_def vimage_def)
qed

termination conflict_loop
proof (relation "measure (\<lambda>(d, original, new, counter).
    card {k. counter \<le> k \<and> exists d (rename original k)} + (if exists d new then 1 else 0))")
  show "wf (measure (\<lambda>(d, original, new, counter).
    card {k. counter \<le> k \<and> exists d (rename original k)} + (if exists d new then 1 else 0)))"
    by simp
next
  fix d :: directory and original_filename new_filename :: string and counter :: nat
  assume taken: "exists d new_filename"
  let ?A = "\<lambda>c. {k. c \<le> k \<and> exists d (rename original_filename k)}"
  have fin: "finite (?A c)" for c
    by (rule finite_subset [OF _ finite_taken [of d original_filename]]) auto
  have "card (?A (counter + 1)) + (if exists d (rename original_filename counter) then 1 else 0)
      = card (?A counter)"
  proof (cases "exists d (rename original_filename counter)")
    case True
    then have "?A counter = insert counter (?A (counter + 1))"
      by (auto simp: le_Suc_eq)
    moreover have "counter \<notin> ?A (counter + 1)"
      by simp
    ultimately show ?thesis
      using True fin [of "counter + 1"] by simp
  next
    case False
    then have "?A counter = ?A (counter + 1)"
      by (auto simp: Suc_le_eq intro: le_neq_trans)
    then show ?thesis
      using False by simp
  qed
  then show "((d, original_filename, rename original_filename counter, counter + 1),
       d, original_filename, new_filename, counter)
      \<in> measure (\<lambda>(d, original, new, counter).
          card {k. counter \<le> k \<and> exists d (rename original k)} + (if exists d new then 1 else 0))"
    using taken by simp
qed

declare conflict_loop.simps [simp del]


lemma stdin_create_and_report:
  "create_and_report b m w = Returns c m' w' \<Longrightarrow> stdin w' = stdin w"
  by (auto simp: create_and_report_def create_file_from_template_def print_def Let_def
      split: sum.splits if_splits prod.splits)

lemma stdin_press_enter:
  "press_enter m w = Returns c m' w' \<Longrightarrow> length (stdin w') \<le> length (stdin w)"
  by (auto simp: press_enter_def split: list.splits event.splits)

lemma handle_fallback_command_cases:
  assumes "P (Returns False m w)"
    and "templates m \<noteq> [] \<Longrightarrow>
      P (Returns True (m\<lparr>selected_index := max 0 (selected_index m - 1)\<rparr>) w)"
    and "templates m \<noteq> [] \<Longrightarrow>
      P (Returns True
          (m\<lparr>selected_index := min (int (length (templates m)) - 1) (selected_index m + 1)\<rparr>) w)"
    and "\<And>k. templates m \<noteq> [] \<Longrightarrow> 0 \<le> k \<Longrightarrow> k < int (length (templates m)) \<Longrightarrow>
      P (Returns True (m\<lparr>selected_index := k\<rparr>) w)"
    and "P (Returns True m w)"
    and "\<And>b. templates m \<noteq> [] \<Longrightarrow> P (create_and_report b m w)"
    and "\<And>x. P (press_enter m (print x w))"
  shows "P (handle_fallback_command s m w)"
proof -
  have ifI: "\<And>c a b. (c \<Longrightarrow> P a) \<Longrightarrow> P b \<Longrightarrow> P (if c then a else b)"
    by simp
  show ?thesis
    unfolding handle_fallback_command_def Let_def
    by (intro ifI; (elim conjE)?; (rule assms; assumption))
qed

lemma stdin_handle_fallback_command:
  "handle_fallback_command s m w = Returns c m' w' \<Longrightarrow> length (stdin w') \<le> length (stdin w)"
proof (induction s m w rule: handle_fallback_command_cases)
qed (auto dest!: stdin_create_and_report stdin_press_enter simp: print_def)

lemma stdin_handle_key:
  "handle_key s m w = Returns c m' w' \<Longrightarrow> length (stdin w') \<le> length (stdin w)"
  unfolding handle_key_def
  by (auto split: if_splits dest!: stdin_create_and_report)

lemma stdin_iteration:
  "iteration m w = Returns c m' w' \<Longrightarrow> length (stdin w') < length (stdin w)"
  unfolding iteration_def Let_def
  by (auto split: list.splits event.splits if_splits simp: print_def
      dest!: stdin_handle_key stdin_handle_fallback_command)

termination loop
  by (relation "measure (\<lambda>(m, w). length (stdin w))") (auto dest: stdin_iteration)

declare loop.simps [simp del]

section \<open>Collision resolution\<close>

lemma rename_spec_candidate: "0 < k \<Longrightarrow> rename original k = spec_candidate original k"
  by (simp add: rename_def spec_candidate_def split_name_def split: prod.splits)

lemma spec_candidate_0: "spec_candidate original 0 = original"
  by (simp add: spec_candidate_def)

lemma conflict_loop_free: "\<not> exists d (conflict_loop d original new counter)"
  by (induction d original new counter rule: conflict_loop.induct)
    (subst conflict_loop.simps, simp)

text \<open>
  Entered at the candidate of \<open>counter - 1\<close>, the loop returns the first candidate from
  there on that does not exist.
\<close>

lemma conflict_loop_first_free:
  "new = spec_candidate original (counter - 1) \<Longrightarrow> 0 < counter \<Longrightarrow>
   \<exists>k\<ge>counter - 1. conflict_loop d original new counter = spec_candidate original k \<and>
     (\<forall>j. counter - 1 \<le> j \<and> j < k \<longrightarrow> exists d (spec_candidate original j))"
proof (induction d original new counter rule: conflict_loop.induct)
  case (1 d original new counter)
  show ?case
  proof (cases "exists d new")
    case False
    then have "conflict_loop d original new counter = new"
      by (subst conflict_loop.simps) simp
    with 1(2) show ?thesis
      by (intro exI [of _ "counter - 1"]) auto
  next
    case True
    have "rename original counter = spec_candidate original (counter + 1 - 1)"
      using 1(3) by (simp add: rename_spec_candidate)
    from 1(1) [OF True this] obtain k where k: "counter \<le> k"
      "conflict_loop d original (rename original counter) (counter + 1) = spec_candidate original k"
      "\<forall>j. counter \<le> j \<and> j < k \<longrightarrow> exists d (spec_candidate original j)"
      by auto
    have "conflict_loop d original new counter = spec_candidate original k"
      using True k(2) by (subst conflict_loop.simps) simp
    moreover have "\<forall>j. counter - 1 \<le> j \<and> j < k \<longrightarrow> exists d (spec_candidate original j)"
    proof (intro allI impI)
      fix j
      assume j: "counter - 1 \<le> j \<and> j < k"
      show "exists d (spec_candidate original j)"
      proof (cases "j = counter - 1")
        case True
        with \<open>exists d new\<close> 1(2) show ?thesis
          by simp
      next
        case False
        with j have "counter \<le> j"
          by arith
        with j k(3) show ?thesis
          by blast
      qed
    qed
    ultimately show ?thesis
      using k(1) by (intro exI [of _ k]) simp
  qed
qed

lemma spec_candidate_inj: "inj (spec_candidate original)"
proof (rule injI)
  fix j k
  assume eq: "spec_candidate original j = spec_candidate original k"
  show "j = k"
  proof (cases "j = 0 \<or> k = 0")
    case True
    then show ?thesis
      using eq rename_neq_original [of original j] rename_neq_original [of original k]
        rename_spec_candidate [of j original] rename_spec_candidate [of k original]
      by (cases "j = 0"; cases "k = 0") (auto simp: spec_candidate_0)
  next
    case False
    then show ?thesis
      using eq rename_inj [of original j k] by (simp add: rename_spec_candidate)
  qed
qed

lemma report_conflicts: "handle_conflicts (cwd report_world) ''report.txt'' = ''report-2.txt''"
  by (simp add: handle_conflicts_def report_world_def conflict_loop.simps exists_def
      rename_def rsplit_dot_def str.simps digit_chr_def)

lemma report_create:
  "create_file_from_template report_world ''report.txt'' False
     = Inr (''report-2.txt'',
         report_world\<lparr>cwd := write_text (cwd report_world) ''report-2.txt'' ''Quarterly''\<rparr>)"
  by (simp add: Let_def create_file_from_template_def read_text_def generate_filename_def
      split_name_def final_content_def handle_conflicts_def report_world_def
      conflict_loop.simps exists_def rename_def rsplit_dot_def str.simps digit_chr_def)

text \<open>
  Claim C1. Whatever the template name and the date-prefix flag, the name that
  \<open>create_file_from_template\<close> writes to is a candidate derived from the original
  candidate name (the generated file name): the original itself, or the original with
  one counter before its extension. It is the first of the sequence original,
  original-1, original-2, ... that does not exist in the working directory, so a suffix
  is never put on a name that has one from the loop already.
\<close>

theorem collision_candidates_from_original:
  assumes "create_file_from_template w template_name add_date_prefix = Inr (filename, w')"
  shows "\<exists>k. filename = spec_candidate (generate_filename w template_name add_date_prefix) k \<and>
    (\<forall>j<k. exists (cwd w)
       (spec_candidate (generate_filename w template_name add_date_prefix) j)) \<and>
    \<not> exists (cwd w) filename"
proof -
  let ?original = "generate_filename w template_name add_date_prefix"
  from assms have filename: "filename = handle_conflicts (cwd w) ?original"
    by (auto simp: create_file_from_template_def Let_def split: sum.splits if_splits)
  obtain k where "conflict_loop (cwd w) ?original ?original 1 = spec_candidate ?original k"
    and "\<forall>j. 1 - 1 \<le> j \<and> j < k \<longrightarrow> exists (cwd w) (spec_candidate ?original j)"
    using conflict_loop_first_free [of ?original ?original 1 "cwd w"]
    by (auto simp: spec_candidate_0)
  then show ?thesis
    using conflict_loop_free [of "cwd w" ?original ?original 1]
    by (intro exI [of _ k]) (simp add: filename handle_conflicts_def)
qed

text \<open>
  With \<^verbatim>\<open>report.txt\<close> and \<^verbatim>\<open>report-1.txt\<close> in the working directory, the template
  \<^verbatim>\<open>report.txt\<close> without date prefix is written to \<^verbatim>\<open>report-2.txt\<close>, the candidate of
  the counter 2.
\<close>

theorem collision_candidates_from_original_witness:
  "create_file_from_template report_world ''report.txt'' False
     = Inr (''report-2.txt'',
         report_world\<lparr>cwd := write_text (cwd report_world) ''report-2.txt'' ''Quarterly''\<rparr>) \<and>
   spec_candidate ''report.txt'' 2 = ''report-2.txt'' \<and>
   (\<exists>k. ''report-2.txt'' = spec_candidate ''report.txt'' k \<and>
      (\<forall>j<k. exists (cwd report_world) (spec_candidate ''report.txt'' j)) \<and>
      \<not> exists (cwd report_world) ''report-2.txt'')"
proof -
  have gen: "generate_filename report_world ''report.txt'' False = ''report.txt''"
    by (simp add: generate_filename_def split_name_def rsplit_dot_def)
  have "spec_candidate ''report.txt'' 2 = ''report-2.txt''"
    by (simp add: spec_candidate_def split_name_def rsplit_dot_def str.simps digit_chr_def)
  with collision_candidates_from_original [OF report_create] report_create show ?thesis
    by (simp add: gen)
qed

text \<open>
  Claim C10. A working directory holds finitely many names (it is a list), and for
  every such directory and every initial candidate the loop of the collision resolution
  terminates (\<open>conflict_loop\<close> is a total function, by the termination proof above) and
  returns a name that does not exist in the directory. The name is one of the
  candidates original, original-1, original-2, ..., which are pairwise distinct.
\<close>

theorem conflict_loop_returns_free_name:
  "\<not> exists d (handle_conflicts d original) \<and>
   (\<exists>k. handle_conflicts d original = spec_candidate original k) \<and>
   inj (spec_candidate original)"
proof -
  have "\<exists>k. handle_conflicts d original = spec_candidate original k"
    using conflict_loop_first_free [of original original 1 d]
    by (auto simp: handle_conflicts_def spec_candidate_0)
  then show ?thesis
    by (simp add: handle_conflicts_def conflict_loop_free spec_candidate_inj)
qed

theorem conflict_loop_returns_free_name_witness:
  "handle_conflicts (cwd report_world) ''report.txt'' = ''report-2.txt'' \<and>
   \<not> exists (cwd report_world) ''report-2.txt'' \<and>
   spec_candidate ''report.txt'' 1 \<noteq> spec_candidate ''report.txt'' 2"
  using conflict_loop_returns_free_name [of "cwd report_world" "''report.txt''"]
  by (simp add: report_conflicts inj_eq)

section \<open>The content written\<close>












section \<open>The catalog\<close>




section \<open>The selection\<close>

lemma handle_key_cases:
  assumes "P (Returns False m w)"
    and "templates m \<noteq> [] \<Longrightarrow>
      P (Returns True (m\<lparr>selected_index := max 0 (selected_index m - 1)\<rparr>) w)"
    and "templates m \<noteq> [] \<Longrightarrow>
      P (Returns True
          (m\<lparr>selected_index := min (int (length (templates m)) - 1) (selected_index m + 1)\<rparr>) w)"
    and "P (Returns True m w)"
    and "\<And>b. templates m \<noteq> [] \<Longrightarrow> P (create_and_report b m w)"
  shows "P (handle_key s m w)"
proof -
  have ifI: "\<And>c a b. (c \<Longrightarrow> P a) \<Longrightarrow> P b \<Longrightarrow> P (if c then a else b)"
    by simp
  show ?thesis
    unfolding handle_key_def
    by (intro ifI; (elim conjE)?; (rule assms; assumption))
qed

lemma manager_of_create_and_report: "manager_of (create_and_report b m w) = m"
  by (simp add: create_and_report_def split: sum.splits prod.splits)

lemma manager_of_press_enter: "manager_of (press_enter m w) = m"
  by (simp add: press_enter_def split: list.splits event.splits)

lemma kept_handle_fallback_command:
  "index_in_range m \<Longrightarrow> kept m (handle_fallback_command s m w)"
  by (rule handle_fallback_command_cases)
    (auto simp: kept_def index_in_range_def manager_of_create_and_report manager_of_press_enter)

lemma kept_handle_key: "index_in_range m \<Longrightarrow> kept m (handle_key s m w)"
  by (rule handle_key_cases)
    (auto simp: kept_def index_in_range_def manager_of_create_and_report)

lemma kept_iteration: "index_in_range m \<Longrightarrow> kept m (iteration m w)"
  using kept_handle_key kept_handle_fallback_command
  by (auto simp: iteration_def Let_def kept_def split: list.splits event.splits)

lemma kept_loop: "index_in_range m \<Longrightarrow> kept m (loop m w)"
proof (induction m w rule: loop.induct)
  case (1 m w)
  from kept_iteration [OF 1(2), of w] have k: "kept m (iteration m w)" .
  show ?case
  proof (cases "iteration m w")
    case (Returns c m' w')
    show ?thesis
    proof (cases c)
      case True
      with Returns k 1(1) [of c m' w'] show ?thesis
        by (subst loop.simps) (simp add: kept_def)
    next
      case False
      with Returns k show ?thesis
        by (subst loop.simps) (simp add: kept_def)
    qed
  next
    case (Raises e m' w')
    with k show ?thesis
      by (subst loop.simps) (simp add: kept_def)
  next
    case (Blocks m' w')
    with k show ?thesis
      by (subst loop.simps) (simp add: kept_def)
  qed
qed

lemma kept_run: "index_in_range m \<Longrightarrow> kept m (run m w)"
  using kept_loop [of m w]
  by (auto simp: run_def kept_def split: outcome.splits)

lemma index_in_range_init: "index_in_range (init w b)"
  by (simp add: index_in_range_def init_def)

lemma office_catalog:
  "load_templates (template_dir office_world) = [''config.json'', ''notes.md'', ''script.sh'']"
  by (simp add: load_templates_def office_world_def is_supported_file_def
      NO_EXT_FILES_def TEXT_EXTENSIONS_def suffix_def rfind_dot_def lower_def lower_chr_def)

lemma typing_session: "manager_of (main typing_world False) = office_manager"
  by (simp add: main_def init_def typing_world_def office_catalog run_def loop.simps
      iteration_def handle_fallback_command_def print_def isdigit_def py_int_def digit_val_def
      upt_conv_Cons office_manager_def)

text \<open>
  Claim C6. The index starts at 0, which is in range when the catalog is not empty. From
  a manager whose index is in range, whatever the key (raw mode) or the command (fallback
  mode), the index is in range after it; and so it is after every round of the main loop
  and at the end of a session, whatever is typed. The catalog stays as it is. In range
  means: if the catalog is not empty then \<open>0 \<le> index < len(catalog)\<close>.
\<close>

theorem selection_index_in_range:
  assumes "index_in_range m"
  shows "selected_index (init w0 termios_available) = 0 \<and>
    index_in_range (init w0 termios_available) \<and>
    index_in_range (manager_of (handle_key key m w)) \<and>
    index_in_range (manager_of (handle_fallback_command command m w)) \<and>
    index_in_range (manager_of (iteration m w)) \<and>
    index_in_range (manager_of (run m w)) \<and>
    templates (manager_of (run m w)) = templates m \<and>
    index_in_range (manager_of (main w0 termios_available))"
  using kept_handle_key [OF assms, of key w] kept_handle_fallback_command [OF assms, of command w]
    kept_iteration [OF assms, of w] kept_run [OF assms, of w]
    kept_run [OF index_in_range_init, of w0 termios_available w0]
  by (simp add: kept_def index_in_range_init main_def) (simp add: init_def)

text \<open>
  Three times down, once up, a jump to 9 and quit, on a catalog of three: the index
  ends at 1.
\<close>

theorem selection_index_in_range_witness:
  "index_in_range (init typing_world False) \<and>
   selected_index (init typing_world False) = 0 \<and>
   manager_of (main typing_world False) = office_manager \<and>
   index_in_range office_manager \<and>
   index_in_range (manager_of (handle_fallback_command ''9'' office_manager typing_world))"
proof -
  have "index_in_range office_manager"
    by (simp add: index_in_range_def office_manager_def)
  from selection_index_in_range [OF this, of typing_world False _ _ "''9''"] this
  show ?thesis
    by (simp add: typing_session)
qed


lemma dispatch_move_down:
  assumes "templates m \<noteq> []" and "move_down_input (use_termios m) s"
  shows "(if use_termios m then handle_key s m w else handle_fallback_command s m w)
    = Returns True
        (m\<lparr>selected_index := min (int (length (templates m)) - 1) (selected_index m + 1)\<rparr>) w"
proof (cases "use_termios m")
  case True
  with assms have "s = down_arrow"
    by (simp add: move_down_input_def)
  with True assms(1) show ?thesis
    by (simp add: handle_key_def down_arrow_def up_arrow_def)
next
  case False
  with assms have "s = ''down'' \<or> s = ''d''"
    by (simp add: move_down_input_def)
  then show ?thesis
  proof
    assume "s = ''down''"
    with False assms(1) show ?thesis
      by (simp add: handle_fallback_command_def)
  next
    assume "s = ''d''"
    with False assms(1) show ?thesis
      by (simp add: handle_fallback_command_def)
  qed
qed

lemma dispatch_move_up:
  assumes "templates m \<noteq> []" and "move_up_input (use_termios m) s"
  shows "(if use_termios m then handle_key s m w else handle_fallback_command s m w)
    = Returns True (m\<lparr>selected_index := max 0 (selected_index m - 1)\<rparr>) w"
proof (cases "use_termios m")
  case True
  with assms have "s = up_arrow"
    by (simp add: move_up_input_def)
  with True assms(1) show ?thesis
    by (simp add: handle_key_def up_arrow_def)
next
  case False
  with assms have "s = ''up'' \<or> s = ''u''"
    by (simp add: move_up_input_def)
  then show ?thesis
  proof
    assume "s = ''up''"
    with False assms(1) show ?thesis
      by (simp add: handle_fallback_command_def)
  next
    assume "s = ''u''"
    with False assms(1) show ?thesis
      by (simp add: handle_fallback_command_def)
  qed
qed

lemma loop_Input:
  assumes "stdin w = Input s # rest"
    and "(if use_termios m then handle_key s m w' else handle_fallback_command s m w')
      = Returns True m' w'"
    and "w' = print (Frame (templates m) (selected_index m) (use_termios m)) w\<lparr>stdin := rest\<rparr>"
  shows "loop m w = loop m' w'"
  using assms
  by (subst loop.simps) (auto simp: iteration_def Let_def print_def)

lemma loop_Nil: "stdin w = [] \<Longrightarrow> manager_of (loop m w) = m"
  by (subst loop.simps) (simp add: iteration_def Let_def print_def)

lemma loop_moves_down:
  assumes "templates m \<noteq> []" and "move_down_input (use_termios m) s"
    and "selected_index m < int (length (templates m))"
    and "stdin w = replicate k (Input s)"
  shows "selected_index (manager_of (loop m w))
    = min (int (length (templates m)) - 1) (selected_index m + int k)"
  using assms
proof (induction k arbitrary: m w)
  case 0
  then show ?case
    by (simp add: loop_Nil)
next
  case (Suc k)
  let ?m = "m\<lparr>selected_index := min (int (length (templates m)) - 1) (selected_index m + 1)\<rparr>"
  let ?w = "print (Frame (templates m) (selected_index m) (use_termios m)) w
      \<lparr>stdin := replicate k (Input s)\<rparr>"
  have "loop m w = loop ?m ?w"
    using Suc.prems dispatch_move_down [of m s ?w]
    by (intro loop_Input [where s = s and rest = "replicate k (Input s)"]) simp_all
  moreover have "selected_index (manager_of (loop ?m ?w))
      = min (int (length (templates ?m)) - 1) (selected_index ?m + int k)"
    using Suc.prems by (intro Suc.IH) simp_all
  ultimately show ?case
    using Suc.prems by simp
qed

lemma loop_moves_up:
  assumes "templates m \<noteq> []" and "move_up_input (use_termios m) s"
    and "0 \<le> selected_index m"
    and "stdin w = replicate k (Input s)"
  shows "selected_index (manager_of (loop m w)) = max 0 (selected_index m - int k)"
  using assms
proof (induction k arbitrary: m w)
  case 0
  then show ?case
    by (simp add: loop_Nil)
next
  case (Suc k)
  let ?m = "m\<lparr>selected_index := max 0 (selected_index m - 1)\<rparr>"
  let ?w = "print (Frame (templates m) (selected_index m) (use_termios m)) w
      \<lparr>stdin := replicate k (Input s)\<rparr>"
  have "loop m w = loop ?m ?w"
    using Suc.prems dispatch_move_up [of m s ?w]
    by (intro loop_Input [where s = s and rest = "replicate k (Input s)"]) simp_all
  moreover have "selected_index (manager_of (loop ?m ?w)) = max 0 (selected_index ?m - int k)"
    using Suc.prems by (intro Suc.IH) simp_all
  ultimately show ?case
    using Suc.prems by simp
qed

text \<open>
  Claim C7. On a catalog of \<open>n > 0\<close> templates and from an index in range, in both input
  modes: moving down sets the index to \<open>min (n - 1) (index + 1)\<close> and moving up to
  \<open>max 0 (index - 1)\<close>, with nothing else changed. After \<open>k\<close> moves down in the main
  loop the index is \<open>min (n - 1) (index + k)\<close>, after \<open>k\<close> moves up it is
  \<open>max 0 (index - k)\<close>: the index reaches the end and stays there, and a move at an end
  changes nothing.
\<close>

theorem moves_clamp_at_the_ends:
  assumes "templates m \<noteq> []"
    and "0 \<le> selected_index m"
    and "selected_index m < int (length (templates m))"
  shows "(move_down_input (use_termios m) s \<longrightarrow>
      (if use_termios m then handle_key s m w else handle_fallback_command s m w)
        = Returns True
            (m\<lparr>selected_index := min (int (length (templates m)) - 1) (selected_index m + 1)\<rparr>) w \<and>
      (\<forall>k. stdin w = replicate k (Input s) \<longrightarrow>
         selected_index (manager_of (loop m w))
           = min (int (length (templates m)) - 1) (selected_index m + int k))) \<and>
    (move_up_input (use_termios m) s \<longrightarrow>
      (if use_termios m then handle_key s m w else handle_fallback_command s m w)
        = Returns True (m\<lparr>selected_index := max 0 (selected_index m - 1)\<rparr>) w \<and>
      (\<forall>k. stdin w = replicate k (Input s) \<longrightarrow>
         selected_index (manager_of (loop m w)) = max 0 (selected_index m - int k)))"
  using assms dispatch_move_down [of m s w] dispatch_move_up [of m s w]
    loop_moves_down [of m s w] loop_moves_up [of m s w]
  by blast

text \<open>
  From the second of three templates: one move down, five moves down, one move up with
  the arrow key, five moves up.
\<close>

theorem moves_clamp_at_the_ends_witness:
  "handle_fallback_command ''down'' office_manager office_world
     = Returns True (office_manager\<lparr>selected_index := 2\<rparr>) office_world \<and>
   selected_index (manager_of
     (loop office_manager (office_world\<lparr>stdin := replicate 5 (Input ''down'')\<rparr>))) = 2 \<and>
   handle_key up_arrow (office_manager\<lparr>use_termios := True\<rparr>) office_world
     = Returns True (office_manager\<lparr>use_termios := True, selected_index := 0\<rparr>) office_world \<and>
   selected_index (manager_of
     (loop (office_manager\<lparr>use_termios := True\<rparr>)
        (office_world\<lparr>stdin := replicate 5 (Input up_arrow)\<rparr>))) = 0"
proof -
  have d: "move_down_input (use_termios office_manager) ''down''"
    by (simp add: move_down_input_def office_manager_def)
  have u: "move_up_input (use_termios (office_manager\<lparr>use_termios := True\<rparr>)) up_arrow"
    by (simp add: move_up_input_def)
  have "stdin (office_world\<lparr>stdin := replicate 5 (Input ''down'')\<rparr>) = replicate 5 (Input ''down'')"
    and "stdin (office_world\<lparr>stdin := replicate 5 (Input up_arrow)\<rparr>) = replicate 5 (Input up_arrow)"
    by simp_all
  with d u
    moves_clamp_at_the_ends [of office_manager "''down''" office_world]
    moves_clamp_at_the_ends [of office_manager "''down''"
      "office_world\<lparr>stdin := replicate 5 (Input ''down'')\<rparr>"]
    moves_clamp_at_the_ends [of "office_manager\<lparr>use_termios := True\<rparr>" up_arrow office_world]
    moves_clamp_at_the_ends [of "office_manager\<lparr>use_termios := True\<rparr>" up_arrow
      "office_world\<lparr>stdin := replicate 5 (Input up_arrow)\<rparr>"]
  show ?thesis
    by (simp add: office_manager_def)
qed








section \<open>The empty catalog\<close>

lemma empty_handle_key:
  "templates m = [] \<Longrightarrow> handle_key key m w = Returns (key \<noteq> ''q'') m w"
  by (simp add: handle_key_def)

lemma empty_handle_fallback_command:
  assumes "templates m = []"
  shows "handle_fallback_command command m w
    = (if command \<in> set [''q'', ''quit'', ''exit''] then Returns False m w
       else if command \<in> set [''help'', ''h'', ''?''] then press_enter m (print Help w)
       else press_enter m (print (Hint ''Unknown command. Try: quit'') w))"
proof (cases "command = []")
  case True
  with assms show ?thesis
    by (simp add: handle_fallback_command_def unknown_hint_def)
next
  case False
  have "handle_fallback_command command m w
    = (if command \<in> set [''q'', ''quit'', ''exit''] then Returns False m w
       else if command \<in> set [''help'', ''h'', ''?''] then press_enter m (print Help w)
       else press_enter m (print (Hint (unknown_hint m)) w))"
    unfolding handle_fallback_command_def
    using assms False by (simp only: Let_def if_False simp_thms)
  with assms show ?thesis
    by (simp only: unknown_hint_def simp_thms if_False)
qed

lemma untouched_press_enter: "cwd w' = cwd w \<Longrightarrow> untouched m w (press_enter m w')"
  by (simp add: untouched_def press_enter_def split: list.splits event.splits)

lemma empty_untouched_handle_fallback_command:
  "templates m = [] \<Longrightarrow> cwd w' = cwd w \<Longrightarrow> untouched m w (handle_fallback_command command m w')"
  by (simp only: empty_handle_fallback_command)
    (simp add: untouched_press_enter print_def, simp add: untouched_def)

lemma empty_untouched_iteration:
  "templates m = [] \<Longrightarrow> untouched m w (iteration m w)"
  by (auto simp: iteration_def Let_def print_def empty_handle_key
      empty_untouched_handle_fallback_command split: list.splits event.splits)
    (simp_all add: untouched_def)

lemma empty_untouched_loop: "templates m = [] \<Longrightarrow> untouched m w (loop m w)"
proof (induction m w rule: loop.induct)
  case (1 m w)
  from empty_untouched_iteration [OF 1(2), of w] have u: "untouched m w (iteration m w)" .
  show ?case
  proof (cases "iteration m w")
    case (Returns c m' w')
    show ?thesis
    proof (cases c)
      case True
      with Returns u 1(1) [of c m' w'] 1(2) show ?thesis
        by (subst loop.simps) (simp add: untouched_def)
    next
      case False
      with Returns u show ?thesis
        by (subst loop.simps) (simp add: untouched_def)
    qed
  next
    case (Raises e m' w')
    with u show ?thesis
      by (subst loop.simps) (simp add: untouched_def)
  next
    case (Blocks m' w')
    with u show ?thesis
      by (subst loop.simps) (simp add: untouched_def)
  qed
qed

lemma empty_untouched_run: "templates m = [] \<Longrightarrow> untouched m w (run m w)"
  using empty_untouched_loop [of m w]
  by (auto simp: run_def untouched_def print_def split: outcome.splits)

text \<open>
  Claim C9. With an empty catalog, no key and no command writes a file or changes the
  manager, and that holds for a whole session. In raw mode every key but \<^verbatim>\<open>q\<close> does
  nothing at all and the loop goes on; \<^verbatim>\<open>q\<close> ends it. In fallback mode the quit commands
  end the session, the help commands print the help screen, and every other command,
  those for navigation and for creating a file among them, is answered as an unknown
  command (the hint \<^verbatim>\<open>Unknown command. Try: quit\<close>, then Enter) and the loop goes on.
\<close>

theorem empty_catalog_commands:
  assumes "templates m = []"
  shows "handle_key key m w = Returns (key \<noteq> ''q'') m w \<and>
    handle_fallback_command command m w
      = (if command \<in> set [''q'', ''quit'', ''exit''] then Returns False m w
         else if command \<in> set [''help'', ''h'', ''?''] then press_enter m (print Help w)
         else press_enter m (print (Hint ''Unknown command. Try: quit'') w)) \<and>
    manager_of (handle_fallback_command command m w) = m \<and>
    cwd (world_of (handle_fallback_command command m w)) = cwd w \<and>
    manager_of (run m w) = m \<and>
    cwd (world_of (run m w)) = cwd w"
  using empty_handle_key [OF assms, of key w] empty_handle_fallback_command [OF assms, of command w]
    empty_untouched_handle_fallback_command [OF assms, of w w command]
    empty_untouched_run [OF assms, of w]
  by (simp only: untouched_def simp_thms)

text \<open>
  Enter in raw mode, and \<^verbatim>\<open>down\<close>, \<^verbatim>\<open>enter\<close>, \<^verbatim>\<open>help\<close>, \<^verbatim>\<open>q\<close> and a session
  with \<^verbatim>\<open>copy\<close> in fallback mode.
\<close>

theorem empty_catalog_commands_witness:
  "handle_key carriage_return (empty_manager\<lparr>use_termios := True\<rparr>) office_world
     = Returns True (empty_manager\<lparr>use_termios := True\<rparr>) office_world \<and>
   handle_fallback_command ''down'' empty_manager (office_world\<lparr>stdin := [Input []]\<rparr>)
     = Returns True empty_manager
         (office_world\<lparr>stdin := [], stdout := [Hint ''Unknown command. Try: quit'']\<rparr>) \<and>
   handle_fallback_command ''enter'' empty_manager (office_world\<lparr>stdin := [Input []]\<rparr>)
     = Returns True empty_manager
         (office_world\<lparr>stdin := [], stdout := [Hint ''Unknown command. Try: quit'']\<rparr>) \<and>
   handle_fallback_command ''help'' empty_manager (office_world\<lparr>stdin := [Input []]\<rparr>)
     = Returns True empty_manager (office_world\<lparr>stdin := [], stdout := [Help]\<rparr>) \<and>
   handle_fallback_command ''q'' empty_manager office_world
     = Returns False empty_manager office_world \<and>
   cwd (world_of (run empty_manager (office_world\<lparr>stdin := [Input ''copy'', Input []]\<rparr>)))
     = []"
proof -
  have e: "templates empty_manager = []" "templates (empty_manager\<lparr>use_termios := True\<rparr>) = []"
    by (simp_all add: empty_manager_def)
  have c: "cwd office_world = []" "stdout office_world = []"
    by (simp_all add: office_world_def)
  from empty_catalog_commands [OF e(2), of carriage_return office_world]
    empty_catalog_commands [OF e(1), of _ "office_world\<lparr>stdin := [Input []]\<rparr>" "''down''"]
    empty_catalog_commands [OF e(1), of _ "office_world\<lparr>stdin := [Input []]\<rparr>" "''enter''"]
    empty_catalog_commands [OF e(1), of _ "office_world\<lparr>stdin := [Input []]\<rparr>" "''help''"]
    empty_catalog_commands [OF e(1), of _ office_world "''q''"]
    empty_catalog_commands [OF e(1), of _ "office_world\<lparr>stdin := [Input ''copy'', Input []]\<rparr>"]
  show ?thesis
    by (simp add: carriage_return_def press_enter_def print_def c)
qed

section \<open>Failures of the read and of the write\<close>

lemma create_file_from_template_Inl:
  assumes "create_file_from_template w template_name add_date_prefix = Inl e"
  shows "e = ReadError \<or> e = WriteError"
    and "create_file_from_template (w\<lparr>stdout := out, stdin := inp\<rparr>) template_name add_date_prefix
      = Inl e"
  using assms
  by (auto simp: create_file_from_template_def read_text_def generate_filename_def
      final_content_def Let_def split_beta split: sum.splits if_splits option.splits node.splits)

lemma dispatch_instantiate:
  assumes "templates m \<noteq> []" and "instantiate_input (use_termios m) s = Some add_date_prefix"
  shows "(if use_termios m then handle_key s m w else handle_fallback_command s m w)
    = create_and_report add_date_prefix m w"
proof (cases "use_termios m")
  case True
  with assms(2) have "s = carriage_return \<and> add_date_prefix \<or> s = ''c'' \<and> \<not> add_date_prefix"
    by (auto simp: instantiate_input_def split: if_splits)
  with True assms(1) show ?thesis
    by (auto simp: handle_key_def carriage_return_def up_arrow_def down_arrow_def)
next
  case False
  with assms(2) have "(s = [] \<or> s = ''enter'' \<or> s = ''e'') \<and> add_date_prefix \<or>
      (s = ''copy'' \<or> s = ''c'') \<and> \<not> add_date_prefix"
    by (simp add: instantiate_input_def split: if_splits)
  moreover have "handle_fallback_command [] m w = create_and_report True m w"
    "handle_fallback_command ''enter'' m w = create_and_report True m w"
    "handle_fallback_command ''e'' m w = create_and_report True m w"
    "handle_fallback_command ''copy'' m w = create_and_report False m w"
    "handle_fallback_command ''c'' m w = create_and_report False m w"
    using assms(1) by (simp_all add: handle_fallback_command_def isdigit_def)
  ultimately show ?thesis
    using False by auto
qed

text \<open>
  Claim C4, as amended. When the key or the command asks for a file and reading the
  selected template or writing the destination fails, \<open>create_file_from_template\<close>
  raises and nobody catches it: \<open>run\<close> catches \<^verbatim>\<open>KeyboardInterrupt\<close> only. After the
  frame, the one thing printed is the reset of the colours in the \<^verbatim>\<open>finally\<close> clause:
  no confirmation and no message of the program about the failure. Then the exception
  leaves \<open>run\<close>.
\<close>

theorem failed_instantiation_propagates:
  assumes "stdin w = Input s # rest"
    and "instantiate_input (use_termios m) s = Some add_date_prefix"
    and "getitem (templates m) (selected_index m) = Inr template"
    and "create_file_from_template w template add_date_prefix = Inl e"
  shows "(e = ReadError \<or> e = WriteError) \<and>
    run m w = Raises e m
      (w\<lparr>stdin := rest,
         stdout := stdout w @ [Frame (templates m) (selected_index m) (use_termios m), Reset]\<rparr>)"
proof -
  let ?frame = "Frame (templates m) (selected_index m) (use_termios m)"
  let ?w = "print ?frame w\<lparr>stdin := rest\<rparr>"
  from assms(3) have nonempty: "templates m \<noteq> []"
    by (auto simp: getitem_def Let_def split: if_splits)
  from create_file_from_template_Inl [OF assms(4)]
  have e: "e = ReadError \<or> e = WriteError"
    and fails: "create_file_from_template ?w template add_date_prefix = Inl e"
    by (simp_all add: print_def)
  have "iteration m w
      = (if use_termios m then handle_key s m ?w else handle_fallback_command s m ?w)"
    using assms(1) by (simp add: iteration_def Let_def print_def)
  also have "\<dots> = create_and_report add_date_prefix m ?w"
    by (rule dispatch_instantiate [OF nonempty assms(2)])
  also have "\<dots> = Raises e m ?w"
    using assms(3) fails by (simp add: create_and_report_def)
  finally have "loop m w = Raises e m ?w"
    by (subst loop.simps) simp
  with e show ?thesis
    by (auto simp: run_def print_def)
qed

text \<open>
  Claim C4 as it is stated fails: with a template that cannot be read, Enter in raw mode
  ends the session by the exception, not by a message and a return.
\<close>

lemma unreadable_init:
  "init unreadable_world True = \<lparr>templates = [''notes.md''], selected_index = 0, use_termios = True\<rparr>"
  by (simp add: init_def load_templates_def unreadable_world_def is_supported_file_def
      NO_EXT_FILES_def TEXT_EXTENSIONS_def suffix_def rfind_dot_def lower_def lower_chr_def)

theorem failed_read_counterexample:
  "create_file_from_template unreadable_world ''notes.md'' True = Inl ReadError \<and>
   main unreadable_world True
     = Raises ReadError \<lparr>templates = [''notes.md''], selected_index = 0, use_termios = True\<rparr>
         (unreadable_world\<lparr>stdin := [], stdout := [Frame [''notes.md''] 0 True, Reset]\<rparr>)"
proof -
  have f: "stdin unreadable_world = [Input carriage_return]" "stdout unreadable_world = []"
    "template_dir unreadable_world = [(''notes.md'', Regular None)]"
    by (simp_all add: unreadable_world_def office_world_def)
  have "carriage_return \<noteq> ''q''" "carriage_return \<noteq> up_arrow" "carriage_return \<noteq> down_arrow"
    by (simp_all add: carriage_return_def up_arrow_def down_arrow_def)
  then show ?thesis
    by (simp add: main_def unreadable_init run_def loop.simps iteration_def handle_key_def
        create_and_report_def getitem_def create_file_from_template_def read_text_def
        print_def f)
qed

text \<open>
  The same for a write that fails, in fallback mode.
\<close>

theorem failed_instantiation_propagates_witness:
  "create_file_from_template read_only_world ''notes.md'' False = Inl WriteError \<and>
   run office_manager read_only_world
     = Raises WriteError office_manager
         (read_only_world\<lparr>stdin := [],
            stdout := [Frame [''config.json'', ''notes.md'', ''script.sh''] 1 False, Reset]\<rparr>)"
proof -
  have s: "stdin read_only_world = Input ''copy'' # []"
    by (simp add: read_only_world_def)
  have i: "instantiate_input (use_termios office_manager) ''copy'' = Some False"
    by (simp add: instantiate_input_def office_manager_def)
  have g: "getitem (templates office_manager) (selected_index office_manager) = Inr ''notes.md''"
    by (simp add: getitem_def office_manager_def)
  have c: "create_file_from_template read_only_world ''notes.md'' False = Inl WriteError"
    by (simp add: create_file_from_template_def read_text_def read_only_world_def
        office_world_def Let_def)
  from failed_instantiation_propagates [OF s i g c] c show ?thesis
    by (simp add: office_manager_def) (simp add: read_only_world_def office_world_def)
qed

end
